theory Spec2Isabelle
  imports Main
begin

section \<open>JavaScript values\<close>

text \<open>
  The values that travel through the client untouched (the message, the data, the user
  object, a decoded response body). Numbers are kept to the integers; \<open>JUndefined\<close> is
  the value of an omitted argument and of a function that returns nothing.
\<close>

datatype jsval =
    JUndefined
  | JNull
  | JBool bool
  | JNum int
  | JStr string
  | JArr "jsval list"
  | JObj "(string \<times> jsval) list"

text \<open>
  A number that \<open>parseInt\<close> can give for a run of decimal digits: a non-negative
  integer that a double holds exactly, or \<open>Infinity\<close>.
\<close>

datatype jsnumber = Num nat | PosInfinity

text \<open>Truthiness, as \<open>||\<close> and \<open>!\<close> read it.\<close>

fun truthy :: "jsval \<Rightarrow> bool" where
  "truthy JUndefined = False"
| "truthy JNull = False"
| "truthy (JBool b) = b"
| "truthy (JNum n) = (n \<noteq> 0)"
| "truthy (JStr s) = (s \<noteq> [])"
| "truthy (JArr xs) = True"
| "truthy (JObj kvs) = True"

text \<open>A default parameter \<open>x = null\<close>: only \<open>undefined\<close> (an omitted argument) takes the default.\<close>

definition default_null :: "jsval \<Rightarrow> jsval" where
  "default_null v = (if v = JUndefined then JNull else v)"

text \<open>
  The configuration's fields are documented as strings (\<open>@param {string}\<close>);
  \<open>None\<close> is a field that is absent. \<open>falsy\<close> is \<open>!x\<close> on such a field: absent or
  the empty string.
\<close>

definition falsy :: "string option \<Rightarrow> bool" where
  "falsy x = (case x of None \<Rightarrow> True | Some s \<Rightarrow> s = [])"

text \<open>\<open>x || d\<close> on such a field.\<close>

definition or_else :: "string option \<Rightarrow> string \<Rightarrow> string" where
  "or_else x d = (case x of None \<Rightarrow> d | Some s \<Rightarrow> (if s = [] then d else s))"

section \<open>Errors\<close>

text \<open>
  What \<open>axios.post\<close> rejects with: an error that carries the server's response
  (\<open>err.response.status\<close>, \<open>err.response.data\<close>), or one without a response
  (\<open>err.message\<close>, \<open>err.stack\<close>).
\<close>

datatype axios_error =
    ErrResponse nat jsval
  | ErrNoResponse string string

datatype js_error =
    ProjectKeyNotFoundException
  | InvalidProjectKeyException
  | Error string
  | TypeError
  | Thrown axios_error

section \<open>The world outside the client\<close>

record logData =
  ld_project_key :: string
  log_timestamp :: string
  app_env :: string
  level :: string
  class_name :: string
  method_name :: string
  line_number :: jsnumber
  message :: jsval
  data :: jsval
  user :: jsval

record request =
  url :: string
  body :: logData
  headers :: "(string \<times> string) list"

text \<open>What \<open>console.error("LogArc request failed", {...})\<close> prints.\<close>

datatype diagnostic =
    StatusBody nat jsval
  | MessageStack string string

datatype console_entry = ConsoleError string diagnostic

text \<open>
  The effects a call leaves behind: the requests handed to \<open>axios.post\<close>, the lines
  written with \<open>console.error\<close>, and the rejections of promises that nobody holds.
\<close>

record world =
  outbound :: "request list"
  console :: "console_entry list"
  unhandled :: "js_error list"

datatype 'a promise = Fulfilled 'a | Rejected js_error

section \<open>Construction\<close>

record config =
  project_key :: "string option"
  endpoint :: "string option"
  env :: "string option"
  timezone :: "string option"

text \<open>\<open>{}\<close>, the default of the constructor's first parameter.\<close>

definition empty_config :: config where
  "empty_config = \<lparr>project_key = None, endpoint = None, env = None, timezone = None\<rparr>"

record LogArcService =
  this_projectKey :: string
  this_endpoint :: string
  this_env :: string
  this_timezone :: string
  this_user :: jsval

text \<open>\<open>Object.values(AppEnv)\<close>.\<close>

definition AppEnv_values :: "string list" where
  "AppEnv_values = [''local'', ''development'', ''staging'', ''production'']"

definition AppEnv_PRODUCTION :: string where
  "AppEnv_PRODUCTION = ''production''"

definition getProjectKey :: "config \<Rightarrow> js_error + string" where
  "getProjectKey cfg =
     (if falsy (project_key cfg) then Inl ProjectKeyNotFoundException
      else Inr (or_else (project_key cfg) []))"

text \<open>
  The constructor, in the order of its statements: the project key first, then the three
  defaults and the user, then the check of the environment. It touches nothing outside
  the object, so the world comes back as it went in.
\<close>

definition constructor :: "config \<Rightarrow> jsval \<Rightarrow> world \<Rightarrow> (js_error + LogArcService) \<times> world" where
  "constructor cfg usr w =
     (case getProjectKey cfg of
        Inl e \<Rightarrow> (Inl e, w)
      | Inr k \<Rightarrow>
          (let this = \<lparr>this_projectKey = k,
                       this_endpoint = or_else (endpoint cfg) ''https://logarc.com/api'',
                       this_env = or_else (env cfg) AppEnv_PRODUCTION,
                       this_timezone = or_else (timezone cfg) ''UTC'',
                       this_user = default_null usr\<rparr>
           in if this_env this \<notin> set AppEnv_values
              then (Inl (Error (''Invalid environment: '' @ this_env this)), w)
              else (Inr this, w)))"

section \<open>Caller metadata\<close>

text \<open>\<open>String.prototype.split("\n")\<close>: the pieces between the newlines, at least one.\<close>

definition newline :: char where
  "newline = CHR 0x0A"

fun split_nl :: "string \<Rightarrow> string list" where
  "split_nl [] = [[]]"
| "split_nl (c # cs) =
     (if c = newline then [] # split_nl cs
      else (case split_nl cs of [] \<Rightarrow> [[c]] | l # ls \<Rightarrow> (c # l) # ls))"

text \<open>
  The pattern \<open>/at (.+?) \((.+?):(\d+):\d+\)/\<close>, as a backtracking matcher in
  continuation style: each piece takes what follows it as the continuation \<open>k\<close> and
  tries its own alternatives in the order of the regular expression engine.
  \<open>.\<close> matches any character but a line terminator (of the four that JavaScript
  knows, the line feed and the carriage return exist among the 8-bit characters used
  here); \<open>\d\<close> matches a decimal digit.
\<close>

definition line_terminator :: "char \<Rightarrow> bool" where
  "line_terminator c = (c = CHR 0x0A \<or> c = CHR 0x0D)"

definition digit :: "char \<Rightarrow> bool" where
  "digit c = (c \<in> set ''0123456789'')"

text \<open>A literal piece of the pattern.\<close>

fun lit :: "string \<Rightarrow> (string \<Rightarrow> 'a option) \<Rightarrow> string \<Rightarrow> 'a option" where
  "lit [] k s = k s"
| "lit (p # ps) k [] = None"
| "lit (p # ps) k (c # cs) = (if p = c then lit ps k cs else None)"

text \<open>\<open>(.+?)\<close>: one character, then the shortest extension after which the rest matches.\<close>

fun lazy_dots :: "(string \<Rightarrow> string \<Rightarrow> 'a option) \<Rightarrow> string \<Rightarrow> string \<Rightarrow> 'a option" where
  "lazy_dots k acc [] = None"
| "lazy_dots k acc (c # cs) =
     (if line_terminator c then None
      else (case k (acc @ [c]) cs of
              Some r \<Rightarrow> Some r
            | None \<Rightarrow> lazy_dots k (acc @ [c]) cs))"

text \<open>\<open>(\d+)\<close>: one digit, then the longest extension after which the rest matches.\<close>

fun greedy_digits :: "(string \<Rightarrow> string \<Rightarrow> 'a option) \<Rightarrow> string \<Rightarrow> string \<Rightarrow> 'a option" where
  "greedy_digits k acc [] = None"
| "greedy_digits k acc (c # cs) =
     (if \<not> digit c then None
      else (case greedy_digits k (acc @ [c]) cs of
              Some r \<Rightarrow> Some r
            | None \<Rightarrow> k (acc @ [c]) cs))"

text \<open>The whole pattern at the start of \<open>s\<close>; the result is the groups 1, 2 and 3.\<close>

definition match_here :: "string \<Rightarrow> (string \<times> string \<times> string) option" where
  "match_here s =
     lit ''at ''
       (lazy_dots (\<lambda>g1.
          lit '' (''
            (lazy_dots (\<lambda>g2.
               lit '':''
                 (greedy_digits (\<lambda>g3.
                    lit '':''
                      (greedy_digits (\<lambda>g4.
                         lit '')'' (\<lambda>rest. Some (g1, g2, g3))) [])) [])) [])) []) s"

text \<open>\<open>callerLine.match(...)\<close>: the first position of the line where the pattern matches.\<close>

fun match :: "string \<Rightarrow> (string \<times> string \<times> string) option" where
  "match [] = match_here []"
| "match (c # cs) =
     (case match_here (c # cs) of Some m \<Rightarrow> Some m | None \<Rightarrow> match cs)"

text \<open>The integer that a run of decimal digits writes.\<close>

definition digit_value :: "char \<Rightarrow> nat" where
  "digit_value c = of_char c - 48"

definition decimal_value :: "string \<Rightarrow> nat" where
  "decimal_value ds = foldl (\<lambda>n c. 10 * n + digit_value c) 0 ds"

text \<open>
  The double nearest to an integer, ties going to the even significand of 53 bits;
  from \<open>2 ^ 1024\<close> on the result is \<open>Infinity\<close>. Up to \<open>2 ^ 53\<close> every integer is
  its own double.
\<close>

fun bit_length :: "nat \<Rightarrow> nat" where
  "bit_length n = (if n = 0 then 0 else Suc (bit_length (n div 2)))"

definition to_double :: "nat \<Rightarrow> jsnumber" where
  "to_double n =
     (if n < 9007199254740992 then Num n
      else
        (let e = bit_length n - 53;
             q = n div 2 ^ e;
             r = n mod 2 ^ e;
             half = 2 ^ (e - 1);
             q' = (if half < r \<or> (r = half \<and> odd q) then q + 1 else q)
         in if 2 ^ 1024 \<le> q' * 2 ^ e then PosInfinity else Num (q' * 2 ^ e)))"

text \<open>
  \<open>parseInt(d, 10)\<close> on a run of decimal digits, as the pattern's third group always is:
  the number value of the integer it writes, a double.
\<close>

definition parseInt :: "string \<Rightarrow> jsnumber" where
  "parseInt ds = to_double (decimal_value ds)"

text \<open>
  The first statements of \<open>log\<close> when \<open>new Error().stack\<close> is a string: line 3 of
  the stack (or the empty string), the match, and the class name and line number taken
  from it or replaced by the sentinels. What \<open>log\<close> does when the stack is not a
  string is in \<open>log_on_host\<close> below.
\<close>

definition callerLine :: "string \<Rightarrow> string" where
  "callerLine stack_text =
     (let stack = split_nl stack_text
      in if 3 < length stack then stack ! 3 else [])"

definition className :: "string \<Rightarrow> string" where
  "className stack_text =
     (case match (callerLine stack_text) of
        Some (g1, g2, g3) \<Rightarrow> g1
      | None \<Rightarrow> ''UnknownClass'')"

definition lineNumber :: "string \<Rightarrow> jsnumber" where
  "lineNumber stack_text =
     (case match (callerLine stack_text) of
        Some (g1, g2, g3) \<Rightarrow> parseInt g3
      | None \<Rightarrow> Num 0)"

section \<open>The timestamp\<close>

text \<open>
  The calendar fields of a moment, as \<open>moment().tz(name)\<close> holds them for one zone.
  The time zone database belongs to the library, so the conversion is a parameter of the
  runtime below; the formatting of the fields is modelled here, for the tokens that the
  pattern of \<open>log\<close> uses.
\<close>

record wallclock =
  year :: nat
  month :: nat
  date :: nat
  hours :: nat
  minutes :: nat
  seconds :: nat

definition digit_char :: "nat \<Rightarrow> char" where
  "digit_char d = ''0123456789'' ! d"

fun decimal :: "nat \<Rightarrow> string" where
  "decimal n = (if n < 10 then [digit_char n] else decimal (n div 10) @ [digit_char (n mod 10)])"

text \<open>moment's \<open>zeroFill\<close> on a non-negative number: zeros on the left up to the target length.\<close>

definition zeroFill :: "nat \<Rightarrow> nat \<Rightarrow> string" where
  "zeroFill n targetLength =
     replicate (targetLength - length (decimal n)) (CHR ''0'') @ decimal n"

text \<open>
  An escaped piece \<open>[...]\<close> of a format: after the opening bracket, the characters other
  than \<open>[\<close> up to the last \<open>]\<close> among them. The result is the text between the brackets
  and what is left of the format, or \<open>None\<close> when no bracket closes.
\<close>

definition escaped :: "string \<Rightarrow> (string \<times> string) option" where
  "escaped fs =
     (let seg = takeWhile (\<lambda>c. c \<noteq> CHR ''['') fs;
          inner = rev (dropWhile (\<lambda>c. c \<noteq> CHR '']'') (rev seg))
      in if inner = [] then None
         else Some (butlast inner, drop (length inner) fs))"

text \<open>
  \<open>format\<close>: the pattern is read from the left; an escaped piece gives its text, the
  tokens \<open>YYYY\<close>, \<open>MM\<close>, \<open>DD\<close>, \<open>HH\<close>, \<open>mm\<close>, \<open>ss\<close> give the zero-filled field, any
  other character stands for itself. The other tokens of the library are left out: the
  function is meant for the pattern of \<open>log\<close>.
\<close>

function moment_format :: "string \<Rightarrow> wallclock \<Rightarrow> string" where
  "moment_format [] t = []"
| "moment_format (c # cs) t =
     (if c = CHR ''['' \<and> escaped cs \<noteq> None
      then fst (the (escaped cs)) @ moment_format (snd (the (escaped cs))) t
      else if take 4 (c # cs) = ''YYYY''
      then zeroFill (year t) 4 @ moment_format (drop 4 (c # cs)) t
      else if take 2 (c # cs) = ''MM''
      then zeroFill (month t) 2 @ moment_format (drop 2 (c # cs)) t
      else if take 2 (c # cs) = ''DD''
      then zeroFill (date t) 2 @ moment_format (drop 2 (c # cs)) t
      else if take 2 (c # cs) = ''HH''
      then zeroFill (hours t) 2 @ moment_format (drop 2 (c # cs)) t
      else if take 2 (c # cs) = ''mm''
      then zeroFill (minutes t) 2 @ moment_format (drop 2 (c # cs)) t
      else if take 2 (c # cs) = ''ss''
      then zeroFill (seconds t) 2 @ moment_format (drop 2 (c # cs)) t
      else c # moment_format cs t)"
  by pat_completeness auto
termination
proof (relation "measure (\<lambda>(fs, t). length fs)")
  show "wf (measure (\<lambda>(fs, t). length fs))"
    by simp
next
  fix c :: char and cs :: string and t :: wallclock
  assume "c = CHR ''['' \<and> escaped cs \<noteq> None"
  then obtain a b where ab: "escaped cs = Some (a, b)"
    by auto
  then have "length b \<le> length cs"
    by (auto simp: escaped_def Let_def split: if_splits)
  with ab show "((snd (the (escaped cs)), t), c # cs, t) \<in> measure (\<lambda>(fs, t). length fs)"
    by simp
qed auto

text \<open>
  The fields a clock can show: moment counts months from 1 to 12 here (the token \<open>MM\<close>),
  days from 1 to 31, and has no leap second.
\<close>

definition calendar :: "wallclock \<Rightarrow> bool" where
  "calendar t =
     (year t < 10000 \<and> 1 \<le> month t \<and> month t \<le> 12 \<and> 1 \<le> date t \<and> date t \<le> 31 \<and>
      hours t < 24 \<and> minutes t < 60 \<and> seconds t < 60)"

text \<open>
  A reader for the shape \<open>YYYY-MM-DDTHH:mm:ss\<close> followed by \<open>Z\<close>: twenty characters,
  the separators in their places, digits everywhere else; it gives back the fields.
\<close>

definition read_timestamp :: "string \<Rightarrow> wallclock option" where
  "read_timestamp ts =
     (if length ts = 20 \<and> ts ! 4 = CHR ''-'' \<and> ts ! 7 = CHR ''-'' \<and> ts ! 10 = CHR ''T'' \<and>
         ts ! 13 = CHR '':'' \<and> ts ! 16 = CHR '':'' \<and> ts ! 19 = CHR ''Z'' \<and>
         list_all digit (take 4 ts @ take 2 (drop 5 ts) @ take 2 (drop 8 ts) @
                         take 2 (drop 11 ts) @ take 2 (drop 14 ts) @ take 2 (drop 17 ts))
      then Some \<lparr>year = decimal_value (take 4 ts), month = decimal_value (take 2 (drop 5 ts)),
                 date = decimal_value (take 2 (drop 8 ts)), hours = decimal_value (take 2 (drop 11 ts)),
                 minutes = decimal_value (take 2 (drop 14 ts)), seconds = decimal_value (take 2 (drop 17 ts))\<rparr>
      else None)"

section \<open>The runtime\<close>

text \<open>
  What the server does with a request: an HTTP response with its status and decoded
  body, or no response at all (timeout, DNS failure, connection refused), which leaves
  an error with a message and a stack trace.
\<close>

datatype reply =
    HttpReply nat jsval
  | NoReply string string

text \<open>
  What a call of \<open>log\<close> reads from outside: the text of \<open>new Error().stack\<close>, the
  calendar fields of the present moment in a named zone, and the server's reply.
\<close>

record runtime =
  error_stack :: string
  moment_tz :: "string \<Rightarrow> wallclock"
  server :: "request \<Rightarrow> reply"

text \<open>
  \<open>axios.post\<close> with its default \<open>validateStatus\<close>: the promise resolves with the
  response on a status from 200 to 299 and rejects with an error that carries the
  response on any other; without a response it rejects with the bare error.
\<close>

definition validateStatus :: "nat \<Rightarrow> bool" where
  "validateStatus status = (200 \<le> status \<and> status < 300)"

datatype axios_result =
    AxiosResolved nat jsval
  | AxiosRejected axios_error

fun axios_post :: "reply \<Rightarrow> axios_result" where
  "axios_post (HttpReply status d) =
     (if validateStatus status then AxiosResolved status d
      else AxiosRejected (ErrResponse status d))"
| "axios_post (NoReply m s) = AxiosRejected (ErrNoResponse m s)"

definition console_error :: "string \<Rightarrow> diagnostic \<Rightarrow> world \<Rightarrow> world" where
  "console_error label d w = w\<lparr>console := console w @ [ConsoleError label d]\<rparr>"

section \<open>Sending\<close>

text \<open>The arguments of \<open>axios.post\<close>: the URL, the payload and the one header.\<close>

definition post_request :: "LogArcService \<Rightarrow> logData \<Rightarrow> request" where
  "post_request this d =
     \<lparr>url = this_endpoint this @ ''/log'', body = d,
      headers = [(''Accept'', ''application/json'')]\<rparr>"

definition sendLogRequest ::
  "LogArcService \<Rightarrow> runtime \<Rightarrow> logData \<Rightarrow> world \<Rightarrow> jsval promise \<times> world" where
  "sendLogRequest this rt d w =
     (let req = post_request this d;
          w1 = w\<lparr>outbound := outbound w @ [req]\<rparr>
      in case axios_post (server rt req) of
           AxiosResolved status response_data \<Rightarrow> (Fulfilled response_data, w1)
         | AxiosRejected err \<Rightarrow>
             (case err of
                ErrResponse status response_data \<Rightarrow>
                  (if status = 422 then (Rejected InvalidProjectKeyException, w1)
                   else (Rejected (Thrown err),
                         console_error ''LogArc request failed''
                           (StatusBody status response_data) w1))
              | ErrNoResponse m s \<Rightarrow>
                  (Rejected (Thrown err),
                   console_error ''LogArc request failed'' (MessageStack m s) w1)))"

text \<open>
  \<open>log\<close> builds the payload and awaits \<open>sendLogRequest\<close>; it returns nothing, so its
  promise is fulfilled with \<open>undefined\<close> or rejected with what the await threw.
\<close>

definition build_logData :: "LogArcService \<Rightarrow> runtime \<Rightarrow> string \<Rightarrow> jsval \<Rightarrow> jsval \<Rightarrow> logData" where
  "build_logData this rt lvl msg dat =
     \<lparr>ld_project_key = this_projectKey this,
      log_timestamp = moment_format ''YYYY-MM-DDTHH:mm:ss[Z]'' (moment_tz rt (this_timezone this)),
      app_env = this_env this,
      level = lvl,
      class_name = className (error_stack rt),
      method_name = className (error_stack rt),
      line_number = lineNumber (error_stack rt),
      message = msg,
      data = dat,
      user = (if truthy (this_user this) then this_user this else JNull)\<rparr>"

definition log ::
  "LogArcService \<Rightarrow> runtime \<Rightarrow> string \<Rightarrow> jsval \<Rightarrow> jsval \<Rightarrow> world \<Rightarrow> jsval promise \<times> world" where
  "log this rt lvl msg dat w =
     (case sendLogRequest this rt (build_logData this rt lvl (default_null msg) (default_null dat)) w of
        (Fulfilled response_data, w') \<Rightarrow> (Fulfilled JUndefined, w')
      | (Rejected e, w') \<Rightarrow> (Rejected e, w'))"

text \<open>
  \<open>log\<close> above is \<open>log\<close> on a host whose \<open>new Error().stack\<close> is a string, the text
  in \<open>error_stack\<close>. V8 lets a program replace the stack through
  \<open>Error.prepareStackTrace\<close>, and then \<open>.stack\<close> is whatever that function returns.
  The first statement of \<open>log\<close> calls \<open>.split("\n")\<close> on it with no guard: on a value
  that is not a string the call throws a \<open>TypeError\<close>, so the promise of the async
  function is rejected before the payload is built and nothing is sent.
  \<open>log_on_host\<close> is \<open>log\<close> with the value of \<open>.stack\<close> as its first argument.
\<close>

definition log_on_host ::
  "jsval \<Rightarrow> LogArcService \<Rightarrow> runtime \<Rightarrow> string \<Rightarrow> jsval \<Rightarrow> jsval \<Rightarrow> world
     \<Rightarrow> jsval promise \<times> world" where
  "log_on_host stack_value this rt lvl msg dat w =
     (case stack_value of
        JStr stack_text \<Rightarrow> log this (rt\<lparr>error_stack := stack_text\<rparr>) lvl msg dat w
      | _ \<Rightarrow> (Rejected TypeError, w))"

section \<open>The severity methods\<close>

text \<open>
  Each method calls \<open>this.log(...)\<close> as a statement and returns nothing: the caller
  gets \<open>undefined\<close>, and the promise of \<open>log\<close> is held by nobody, so its rejection, if
  any, is an unhandled one.
\<close>

definition call_and_drop :: "jsval promise \<times> world \<Rightarrow> jsval \<times> world" where
  "call_and_drop r =
     (case r of
        (Fulfilled v, w) \<Rightarrow> (JUndefined, w)
      | (Rejected e, w) \<Rightarrow> (JUndefined, w\<lparr>unhandled := unhandled w @ [e]\<rparr>))"

definition debug :: "LogArcService \<Rightarrow> runtime \<Rightarrow> jsval \<Rightarrow> jsval \<Rightarrow> world \<Rightarrow> jsval \<times> world" where
  "debug this rt msg dat w = call_and_drop (log this rt ''debug'' (default_null msg) (default_null dat) w)"

definition info :: "LogArcService \<Rightarrow> runtime \<Rightarrow> jsval \<Rightarrow> jsval \<Rightarrow> world \<Rightarrow> jsval \<times> world" where
  "info this rt msg dat w = call_and_drop (log this rt ''info'' (default_null msg) (default_null dat) w)"

definition error :: "LogArcService \<Rightarrow> runtime \<Rightarrow> jsval \<Rightarrow> jsval \<Rightarrow> world \<Rightarrow> jsval \<times> world" where
  "error this rt msg dat w = call_and_drop (log this rt ''error'' (default_null msg) (default_null dat) w)"

definition notice :: "LogArcService \<Rightarrow> runtime \<Rightarrow> jsval \<Rightarrow> jsval \<Rightarrow> world \<Rightarrow> jsval \<times> world" where
  "notice this rt msg dat w = call_and_drop (log this rt ''notice'' (default_null msg) (default_null dat) w)"

definition warning :: "LogArcService \<Rightarrow> runtime \<Rightarrow> jsval \<Rightarrow> jsval \<Rightarrow> world \<Rightarrow> jsval \<times> world" where
  "warning this rt msg dat w = call_and_drop (log this rt ''warning'' (default_null msg) (default_null dat) w)"

definition critical :: "LogArcService \<Rightarrow> runtime \<Rightarrow> jsval \<Rightarrow> jsval \<Rightarrow> world \<Rightarrow> jsval \<times> world" where
  "critical this rt msg dat w = call_and_drop (log this rt ''critical'' (default_null msg) (default_null dat) w)"

definition alert :: "LogArcService \<Rightarrow> runtime \<Rightarrow> jsval \<Rightarrow> jsval \<Rightarrow> world \<Rightarrow> jsval \<times> world" where
  "alert this rt msg dat w = call_and_drop (log this rt ''alert'' (default_null msg) (default_null dat) w)"

definition emergency :: "LogArcService \<Rightarrow> runtime \<Rightarrow> jsval \<Rightarrow> jsval \<Rightarrow> world \<Rightarrow> jsval \<times> world" where
  "emergency this rt msg dat w = call_and_drop (log this rt ''emergency'' (default_null msg) (default_null dat) w)"

text \<open>The eight methods with their names.\<close>

definition severity_methods ::
  "(string \<times> (LogArcService \<Rightarrow> runtime \<Rightarrow> jsval \<Rightarrow> jsval \<Rightarrow> world \<Rightarrow> jsval \<times> world)) list" where
  "severity_methods =
     [(''debug'', debug), (''info'', info), (''notice'', notice), (''warning'', warning),
      (''error'', error), (''critical'', critical), (''alert'', alert), (''emergency'', emergency)]"

section \<open>Sample inputs\<close>

text \<open>A world in which nothing has happened yet.\<close>

definition w0 :: world where
  "w0 = \<lparr>outbound = [], console = [], unhandled = []\<rparr>"

text \<open>The client of \<open>new LogArcService({project_key: "abc"})\<close>.\<close>

definition this0 :: LogArcService where
  "this0 = \<lparr>this_projectKey = ''abc'', this_endpoint = ''https://logarc.com/api'',
            this_env = ''production'', this_timezone = ''UTC'', this_user = JNull\<rparr>"

text \<open>A stack as V8 prints it for a call of \<open>logger.info\<close> from a function \<open>handler\<close>.\<close>

definition stack0 :: string where
  "stack0 =
     ''Error'' @ [newline] @
     ''    at LogArcService.log (/app/logarc/index.js:131:19)'' @ [newline] @
     ''    at LogArcService.info (/app/logarc/index.js:81:10)'' @ [newline] @
     ''    at handler (/app/server.js:42:12)'' @ [newline] @
     ''    at /app/router.js:7:3''"

text \<open>The same with the stack cut after three lines, and with a caller that has no name.\<close>

definition stack_short :: string where
  "stack_short =
     ''Error'' @ [newline] @
     ''    at LogArcService.log (/app/logarc/index.js:131:19)'' @ [newline] @
     ''    at LogArcService.info (/app/logarc/index.js:81:10)''"

definition stack_anonymous :: string where
  "stack_anonymous =
     ''Error'' @ [newline] @
     ''    at LogArcService.log (/app/logarc/index.js:131:19)'' @ [newline] @
     ''    at LogArcService.info (/app/logarc/index.js:81:10)'' @ [newline] @
     ''    at /app/router.js:7:3'' @ [newline] @
     ''    at handler (/app/server.js:42:12)''"

definition clock0 :: wallclock where
  "clock0 = \<lparr>year = 2024, month = 3, date = 9, hours = 7, minutes = 5, seconds = 0\<rparr>"

text \<open>The same moment in Kathmandu, a quarter to six hours ahead, and elsewhere.\<close>

definition zone_clock :: "string \<Rightarrow> wallclock" where
  "zone_clock zone =
     (if zone = ''Asia/Kathmandu'' then clock0\<lparr>hours := 12, minutes := 50\<rparr> else clock0)"

text \<open>A runtime whose server gives the same reply to every request.\<close>

definition runtime_with :: "reply \<Rightarrow> runtime" where
  "runtime_with r = \<lparr>error_stack = stack0, moment_tz = zone_clock, server = (\<lambda>req. r)\<rparr>"

section \<open>Properties of construction\<close>

lemma getProjectKey_falsy:
  "falsy (project_key cfg) \<Longrightarrow> getProjectKey cfg = Inl ProjectKeyNotFoundException"
  by (simp add: getProjectKey_def)

lemma getProjectKey_present:
  "project_key cfg = Some k \<Longrightarrow> k \<noteq> [] \<Longrightarrow> getProjectKey cfg = Inr k"
  by (simp add: getProjectKey_def falsy_def or_else_def)

lemma falsy_iff: "falsy x \<longleftrightarrow> x = None \<or> x = Some []"
  by (cases x) (simp_all add: falsy_def)

text \<open>
  C3. A configuration whose project key is absent or empty makes construction fail with
  \<open>ProjectKeyNotFoundException\<close>, whatever its other fields hold, and no request has
  been sent: the world, and so the list of outbound requests, is as it was.
\<close>

theorem missing_project_key_fails:
  assumes "project_key cfg = None \<or> project_key cfg = Some []"
  shows "constructor cfg usr w = (Inl ProjectKeyNotFoundException, w) \<and>
         outbound (snd (constructor cfg usr w)) = outbound w"
proof -
  from assms have "falsy (project_key cfg)"
    by (simp add: falsy_iff)
  then have "getProjectKey cfg = Inl ProjectKeyNotFoundException"
    by (rule getProjectKey_falsy)
  then show ?thesis
    by (simp add: constructor_def)
qed

theorem missing_project_key_fails_witness:
  "constructor (empty_config\<lparr>project_key := Some [], endpoint := Some ''http://localhost''\<rparr>)
     JNull w0 = (Inl ProjectKeyNotFoundException, w0) \<and>
   constructor empty_config JUndefined w0 = (Inl ProjectKeyNotFoundException, w0)"
  using missing_project_key_fails
          [of "empty_config\<lparr>project_key := Some [], endpoint := Some ''http://localhost''\<rparr>" JNull w0]
        missing_project_key_fails [of empty_config JUndefined w0]
  by (simp add: empty_config_def)

text \<open>
  C4, as the claim has it, fails twice. A configuration without a project key and with the
  environment \<open>bogus\<close> fails with \<open>ProjectKeyNotFoundException\<close>, since the key is
  looked at first; and an environment that is present as the empty string is replaced
  by the default, so construction succeeds.
\<close>

theorem invalid_environment_counterexample:
  "env (empty_config\<lparr>env := Some ''bogus''\<rparr>) = Some ''bogus'' \<and>
   ''bogus'' \<notin> set AppEnv_values \<and>
   fst (constructor (empty_config\<lparr>env := Some ''bogus''\<rparr>) JNull w0)
     = Inl ProjectKeyNotFoundException \<and>
   fst (constructor (empty_config\<lparr>env := Some ''bogus''\<rparr>) JNull w0)
     \<noteq> Inl (Error ''Invalid environment: bogus'') \<and>
   env (empty_config\<lparr>project_key := Some ''abc'', env := Some []\<rparr>) = Some [] \<and>
   [] \<notin> set AppEnv_values \<and>
   fst (constructor (empty_config\<lparr>project_key := Some ''abc'', env := Some []\<rparr>) JNull w0)
     = Inr \<lparr>this_projectKey = ''abc'', this_endpoint = ''https://logarc.com/api'',
            this_env = ''production'', this_timezone = ''UTC'', this_user = JNull\<rparr>"
  by (simp add: constructor_def getProjectKey_def falsy_def or_else_def empty_config_def
      AppEnv_values_def AppEnv_PRODUCTION_def default_null_def)

text \<open>
  C4, amended. With a project key that is present and not empty, an environment that is
  present, not empty and not one of \<open>local\<close>, \<open>development\<close>, \<open>staging\<close>,
  \<open>production\<close> makes construction fail with the error \<open>Invalid environment: <env>\<close>,
  and the world is as it was.
\<close>

theorem invalid_environment_fails:
  assumes "project_key cfg = Some k" and "k \<noteq> []"
    and "env cfg = Some e" and "e \<noteq> []"
    and "e \<notin> {''local'', ''development'', ''staging'', ''production''}"
  shows "constructor cfg usr w = (Inl (Error (''Invalid environment: '' @ e)), w)"
proof -
  have k: "getProjectKey cfg = Inr k"
    using assms(1,2) by (rule getProjectKey_present)
  have e: "or_else (env cfg) AppEnv_PRODUCTION = e"
    using assms(3,4) by (simp add: or_else_def)
  have "e \<notin> set AppEnv_values"
    using assms(5) by (simp add: AppEnv_values_def)
  with k e show ?thesis
    by (simp add: constructor_def Let_def)
qed

theorem invalid_environment_fails_witness:
  "constructor (empty_config\<lparr>project_key := Some ''abc'', env := Some ''Production''\<rparr>) JNull w0
     = (Inl (Error ''Invalid environment: Production''), w0)"
  using invalid_environment_fails
          [of "empty_config\<lparr>project_key := Some ''abc'', env := Some ''Production''\<rparr>"
              "''abc''" "''Production''" JNull w0]
  by (simp add: empty_config_def)

text \<open>
  C10. The project key is checked before the environment: a configuration that lacks the
  key and carries an environment outside the four values fails with
  \<open>ProjectKeyNotFoundException\<close> and not with the error of the environment; the same
  configuration with a key put in fails with the error of the environment.
\<close>

theorem project_key_checked_before_environment:
  assumes "project_key cfg = None \<or> project_key cfg = Some []"
    and "env cfg = Some e" and "e \<noteq> []" and "e \<notin> set AppEnv_values"
    and "k \<noteq> []"
  shows "fst (constructor cfg usr w) = Inl ProjectKeyNotFoundException \<and>
         fst (constructor cfg usr w) \<noteq> Inl (Error (''Invalid environment: '' @ e)) \<and>
         fst (constructor (cfg\<lparr>project_key := Some k\<rparr>) usr w)
           = Inl (Error (''Invalid environment: '' @ e))"
proof -
  from assms(1) have "getProjectKey cfg = Inl ProjectKeyNotFoundException"
    by (simp add: getProjectKey_falsy falsy_iff)
  then have a: "fst (constructor cfg usr w) = Inl ProjectKeyNotFoundException"
    by (simp add: constructor_def)
  have "getProjectKey (cfg\<lparr>project_key := Some k\<rparr>) = Inr k"
    using assms(5) by (simp add: getProjectKey_present)
  moreover have "or_else (env cfg) AppEnv_PRODUCTION = e"
    using assms(2,3) by (simp add: or_else_def)
  ultimately have "fst (constructor (cfg\<lparr>project_key := Some k\<rparr>) usr w)
      = Inl (Error (''Invalid environment: '' @ e))"
    using assms(4) by (simp add: constructor_def Let_def)
  with a show ?thesis
    by simp
qed

theorem project_key_checked_before_environment_witness:
  "fst (constructor (empty_config\<lparr>env := Some ''prod''\<rparr>) JNull w0)
     = Inl ProjectKeyNotFoundException \<and>
   fst (constructor (empty_config\<lparr>env := Some ''prod'', project_key := Some ''abc''\<rparr>) JNull w0)
     = Inl (Error ''Invalid environment: prod'')"
  using project_key_checked_before_environment
          [of "empty_config\<lparr>env := Some ''prod''\<rparr>" "''prod''" "''abc''" JNull w0]
  by (simp add: empty_config_def AppEnv_values_def)

section \<open>Properties of sending\<close>

lemma sendLogRequest_resolved:
  "server rt (post_request this d) = HttpReply st b \<Longrightarrow> validateStatus st \<Longrightarrow>
   sendLogRequest this rt d w = (Fulfilled b, w\<lparr>outbound := outbound w @ [post_request this d]\<rparr>)"
  by (simp add: sendLogRequest_def Let_def)


lemma sendLogRequest_http_error:
  "server rt (post_request this d) = HttpReply st b \<Longrightarrow> \<not> validateStatus st \<Longrightarrow> st \<noteq> 422 \<Longrightarrow>
   sendLogRequest this rt d w
     = (Rejected (Thrown (ErrResponse st b)),
        console_error ''LogArc request failed'' (StatusBody st b)
          (w\<lparr>outbound := outbound w @ [post_request this d]\<rparr>))"
  by (simp add: sendLogRequest_def Let_def)


lemma sendLogRequest_outbound:
  "outbound (snd (sendLogRequest this rt d w)) = outbound w @ [post_request this d]"
  by (simp add: sendLogRequest_def Let_def console_error_def
      split: axios_result.splits axios_error.splits)

text \<open>\<open>log\<close> passes on a rejection and the world, and replaces a fulfilment by \<open>undefined\<close>.\<close>

lemma log_rejected:
  "sendLogRequest this rt (build_logData this rt lvl (default_null msg) (default_null dat)) w
     = (Rejected e, w') \<Longrightarrow>
   log this rt lvl msg dat w = (Rejected e, w')"
  by (simp add: log_def)

lemma log_fulfilled:
  "sendLogRequest this rt (build_logData this rt lvl (default_null msg) (default_null dat)) w
     = (Fulfilled b, w') \<Longrightarrow>
   log this rt lvl msg dat w = (Fulfilled JUndefined, w')"
  by (simp add: log_def)

lemma log_outbound:
  "outbound (snd (log this rt lvl msg dat w))
     = outbound w @ [post_request this (build_logData this rt lvl (default_null msg) (default_null dat))]"
proof -
  let ?d = "build_logData this rt lvl (default_null msg) (default_null dat)"
  obtain p w' where s: "sendLogRequest this rt ?d w = (p, w')"
    by (cases "sendLogRequest this rt ?d w")
  with sendLogRequest_outbound [of this rt ?d w] show ?thesis
    by (cases p) (simp_all add: log_def)
qed



lemma call_and_drop_console: "console (snd (call_and_drop r)) = console (snd r)"
  by (cases r; cases "fst r") (simp_all add: call_and_drop_def)

lemma call_and_drop_fst: "fst (call_and_drop r) = JUndefined"
  by (cases r; cases "fst r") (simp_all add: call_and_drop_def)

lemma call_and_drop_rejected:
  "unhandled (snd (call_and_drop (Rejected e, w))) = unhandled w @ [e]"
  by (simp add: call_and_drop_def)

lemma severity_methods_log:
  "(name, meth) \<in> set severity_methods \<Longrightarrow>
   meth this rt msg dat w = call_and_drop (log this rt name (default_null msg) (default_null dat) w)"
  by (auto simp: severity_methods_def debug_def info_def notice_def warning_def error_def
      critical_def alert_def emergency_def)

lemma severity_method_returns_undefined:
  "(name, meth) \<in> set severity_methods \<Longrightarrow> fst (meth this rt msg dat w) = JUndefined"
  by (simp add: severity_methods_log call_and_drop_fst)




text \<open>
  C1. The claim asks that a severity method hand its caller an awaitable whose rejection
  shows every failure of delivery. The methods call \<open>this.log(...)\<close> without returning
  its promise: with a server that answers 500, \<open>info("hello")\<close> returns \<open>undefined\<close>,
  and the error of the transport ends as the rejection of a promise nobody holds.
\<close>

theorem info_drops_the_failure:
  "fst (info this0 (runtime_with (HttpReply 500 (JStr ''boom''))) (JStr ''hello'') JUndefined w0)
     = JUndefined \<and>
   unhandled (snd (info this0 (runtime_with (HttpReply 500 (JStr ''boom''))) (JStr ''hello'')
                     JUndefined w0))
     = [Thrown (ErrResponse 500 (JStr ''boom''))]"
proof -
  let ?rt = "runtime_with (HttpReply 500 (JStr ''boom''))"
  let ?d = "build_logData this0 ?rt ''info'' (JStr ''hello'') JNull"
  have "server ?rt (post_request this0 ?d) = HttpReply 500 (JStr ''boom'')"
    by (simp add: runtime_with_def)
  then have "sendLogRequest this0 ?rt ?d w0
      = (Rejected (Thrown (ErrResponse 500 (JStr ''boom''))),
         console_error ''LogArc request failed'' (StatusBody 500 (JStr ''boom''))
           (w0\<lparr>outbound := outbound w0 @ [post_request this0 ?d]\<rparr>))"
    by (rule sendLogRequest_http_error) (simp_all add: validateStatus_def)
  then have "log this0 ?rt ''info'' (JStr ''hello'') JNull w0
      = (Rejected (Thrown (ErrResponse 500 (JStr ''boom''))),
         console_error ''LogArc request failed'' (StatusBody 500 (JStr ''boom''))
           (w0\<lparr>outbound := outbound w0 @ [post_request this0 ?d]\<rparr>))"
    by (intro log_rejected) (simp add: default_null_def)
  then show ?thesis
    by (simp add: info_def default_null_def call_and_drop_def console_error_def w0_def)
qed










section \<open>Properties of the timestamp\<close>

declare decimal.simps [simp del]

lemma moment_format_pattern:
  "moment_format ''YYYY-MM-DDTHH:mm:ss[Z]'' t =
     zeroFill (year t) 4 @ ''-'' @ zeroFill (month t) 2 @ ''-'' @ zeroFill (date t) 2 @ ''T'' @
     zeroFill (hours t) 2 @ '':'' @ zeroFill (minutes t) 2 @ '':'' @ zeroFill (seconds t) 2 @ ''Z''"
  by (simp add: escaped_def)

declare moment_format.simps [simp del]

lemma decimal_1: "n < 10 \<Longrightarrow> decimal n = [digit_char n]"
  by (simp add: decimal.simps)

lemma decimal_2: "10 \<le> n \<Longrightarrow> n < 100 \<Longrightarrow> decimal n = [digit_char (n div 10), digit_char (n mod 10)]"
  by (subst decimal.simps) (simp add: decimal_1)

lemma decimal_3: "100 \<le> n \<Longrightarrow> n < 1000 \<Longrightarrow>
  decimal n = [digit_char (n div 100), digit_char (n div 10 mod 10), digit_char (n mod 10)]"
  by (subst decimal.simps) (simp add: decimal_2 div_mult2_eq[symmetric])

lemma decimal_4: "1000 \<le> n \<Longrightarrow> n < 10000 \<Longrightarrow>
  decimal n = [digit_char (n div 1000), digit_char (n div 100 mod 10), digit_char (n div 10 mod 10), digit_char (n mod 10)]"
  by (subst decimal.simps) (simp add: decimal_3 div_mult2_eq[symmetric])

lemma digit_char_0: "digit_char 0 = CHR ''0''"
  by (simp add: digit_char_def)

lemma zeroFill_2: "n < 100 \<Longrightarrow> zeroFill n 2 = [digit_char (n div 10), digit_char (n mod 10)]"
proof (cases "n < 10")
  case True
  then show ?thesis by (simp add: zeroFill_def decimal_1 digit_char_0)
next
  case False
  assume "n < 100"
  with False show ?thesis by (simp add: zeroFill_def decimal_2)
qed


lemma zeroFill_4: 
  assumes "n < 10000"
  shows "zeroFill n 4 = [digit_char (n div 1000), digit_char (n div 100 mod 10),
                         digit_char (n div 10 mod 10), digit_char (n mod 10)]"
proof -
  consider "n < 10" | "10 \<le> n" "n < 100" | "100 \<le> n" "n < 1000" | "1000 \<le> n"
    by linarith
  then show ?thesis
  proof cases
    case 1
    then have "decimal n = [digit_char n]" by (rule decimal_1)
    moreover have "n div 1000 = 0" "n div 100 mod 10 = 0" "n div 10 mod 10 = 0" "n mod 10 = n"
      using 1 by simp_all
    ultimately show ?thesis
      by (simp add: zeroFill_def digit_char_0 numeral_3_eq_3)
  next
    case 2
    then have "decimal n = [digit_char (n div 10), digit_char (n mod 10)]" by (rule decimal_2)
    moreover have "n div 1000 = 0" "n div 100 mod 10 = 0" "n div 10 mod 10 = n div 10"
      using 2 by simp_all
    ultimately show ?thesis
      by (simp add: zeroFill_def digit_char_0 numeral_2_eq_2)
  next
    case 3
    then have "decimal n = [digit_char (n div 100), digit_char (n div 10 mod 10), digit_char (n mod 10)]"
      by (rule decimal_3)
    moreover have "n div 1000 = 0" "n div 100 mod 10 = n div 100"
      using 3 by simp_all
    ultimately show ?thesis
      by (simp add: zeroFill_def digit_char_0)
  next
    case 4
    with assms show ?thesis by (simp add: zeroFill_def decimal_4)
  qed
qed



lemma lt10_cases: "d < 10 \<Longrightarrow> d \<in> {0, 1, 2, 3, 4, 5, 6, 7, 8, 9::nat}"
  by auto

lemma digit_value_digit_char: "d < 10 \<Longrightarrow> digit_value (digit_char d) = d"
  by (drule lt10_cases) (auto simp: digit_value_def digit_char_def)

lemma digit_digit_char: "d < 10 \<Longrightarrow> digit (digit_char d)"
  by (drule lt10_cases) (auto simp: digit_def digit_char_def)

lemma decimal_value_2:
  "a < 10 \<Longrightarrow> b < 10 \<Longrightarrow> decimal_value [digit_char a, digit_char b] = 10 * a + b"
  by (simp add: decimal_value_def digit_value_digit_char)

lemma decimal_value_4:
  "a < 10 \<Longrightarrow> b < 10 \<Longrightarrow> c < 10 \<Longrightarrow> d < 10 \<Longrightarrow>
   decimal_value [digit_char a, digit_char b, digit_char c, digit_char d]
     = 1000 * a + 100 * b + 10 * c + d"
  by (simp add: decimal_value_def digit_value_digit_char)

lemma decimal_value_zeroFill_2: "n < 100 \<Longrightarrow> decimal_value (zeroFill n 2) = n"
  by (simp add: zeroFill_2 decimal_value_2)


lemma decimal_expansion_4:
  "1000 * (n div 1000) + 100 * (n div 100 mod 10) + 10 * (n div 10 mod 10) + n mod 10 = (n::nat)"
proof -
  have a: "n div 10 div 10 = n div 100" and b: "n div 100 div 10 = n div 1000"
    by (simp_all add: div_mult2_eq [symmetric])
  have "n = 10 * (n div 10) + n mod 10"
    by simp
  moreover have "n div 10 = 10 * (n div 10 div 10) + n div 10 mod 10"
    by simp
  moreover have "n div 100 = 10 * (n div 100 div 10) + n div 100 mod 10"
    by simp
  ultimately show ?thesis
    unfolding a b by linarith
qed

lemma decimal_value_zeroFill_4: 
  assumes "n < 10000" shows "decimal_value (zeroFill n 4) = n"
proof -
  have "n div 1000 < 10" using assms by simp
  then have "decimal_value (zeroFill n 4)
      = 1000 * (n div 1000) + 100 * (n div 100 mod 10) + 10 * (n div 10 mod 10) + n mod 10"
    by (simp add: zeroFill_4 [OF assms] decimal_value_4)
  then show ?thesis
    by (simp only: decimal_expansion_4)
qed


lemma read_timestamp_format:
  assumes "calendar t"
  shows "read_timestamp (moment_format ''YYYY-MM-DDTHH:mm:ss[Z]'' t) = Some t"
    and "length (moment_format ''YYYY-MM-DDTHH:mm:ss[Z]'' t) = 20"
    and "last (moment_format ''YYYY-MM-DDTHH:mm:ss[Z]'' t) = CHR ''Z''"
proof -
  from assms have y: "year t < 10000" and mo: "month t < 100" and d: "date t < 100"
    and h: "hours t < 100" and mi: "minutes t < 100" and s: "seconds t < 100"
    by (simp_all add: calendar_def)
  let ?ts = "moment_format ''YYYY-MM-DDTHH:mm:ss[Z]'' t"
  have ts: "?ts = zeroFill (year t) 4 @ CHR ''-'' # zeroFill (month t) 2 @ CHR ''-'' #
      zeroFill (date t) 2 @ CHR ''T'' # zeroFill (hours t) 2 @ CHR '':'' #
      zeroFill (minutes t) 2 @ CHR '':'' # zeroFill (seconds t) 2 @ ''Z''"
    unfolding moment_format_pattern by simp
  have l4: "length (zeroFill (year t) 4) = 4"
    by (simp add: zeroFill_4 [OF y])
  have l2: "length (zeroFill (month t) 2) = 2" "length (zeroFill (date t) 2) = 2"
    "length (zeroFill (hours t) 2) = 2" "length (zeroFill (minutes t) 2) = 2"
    "length (zeroFill (seconds t) 2) = 2"
    by (simp_all add: zeroFill_2 mo d h mi s)
  show "length ?ts = 20"
    by (simp add: ts l4 l2)
  show "last ?ts = CHR ''Z''"
    by (simp add: ts)
  have dg4: "list_all digit (zeroFill (year t) 4)"
    using y by (simp add: zeroFill_4 digit_digit_char)
  have dg2: "list_all digit (zeroFill n 2)" if "n < 100" for n
    using that by (simp add: zeroFill_2 digit_digit_char)
  have parts: "take 4 ?ts = zeroFill (year t) 4" "take 2 (drop 5 ?ts) = zeroFill (month t) 2"
    "take 2 (drop 8 ?ts) = zeroFill (date t) 2" "take 2 (drop 11 ?ts) = zeroFill (hours t) 2"
    "take 2 (drop 14 ?ts) = zeroFill (minutes t) 2" "take 2 (drop 17 ?ts) = zeroFill (seconds t) 2"
    by (simp_all add: ts l4 l2)
  have seps: "?ts ! 4 = CHR ''-''" "?ts ! 7 = CHR ''-''" "?ts ! 10 = CHR ''T''"
    "?ts ! 13 = CHR '':''" "?ts ! 16 = CHR '':''" "?ts ! 19 = CHR ''Z''"
    by (simp_all add: ts nth_append l4 l2)
  show "read_timestamp ?ts = Some t"
    unfolding read_timestamp_def parts seps \<open>length ?ts = 20\<close>
    by (simp add: dg4 dg2 mo d h mi s y decimal_value_zeroFill_2 decimal_value_zeroFill_4)
qed

text \<open>
  C8. The timestamp of the payload is made of the calendar fields that the present
  moment has in the zone of the configuration: the year on four digits, then month,
  day, hours, minutes and seconds on two digits each, with the separators of
  \<open>YYYY-MM-DDTHH:mm:ss\<close>, and the letter \<open>Z\<close> at the end whatever the zone is; reading
  the twenty characters back gives the fields of that zone.
\<close>

theorem log_timestamp_is_zone_wall_clock:
  assumes "moment_tz rt (this_timezone this) = t" and "calendar t"
  shows "\<exists>req. outbound (snd (log this rt lvl msg dat w)) = outbound w @ [req] \<and>
           log_timestamp (body req) =
             zeroFill (year t) 4 @ ''-'' @ zeroFill (month t) 2 @ ''-'' @ zeroFill (date t) 2 @
             ''T'' @ zeroFill (hours t) 2 @ '':'' @ zeroFill (minutes t) 2 @ '':'' @
             zeroFill (seconds t) 2 @ ''Z'' \<and>
           length (log_timestamp (body req)) = 20 \<and>
           last (log_timestamp (body req)) = CHR ''Z'' \<and>
           read_timestamp (log_timestamp (body req)) = Some t"
proof -
  let ?d = "build_logData this rt lvl (default_null msg) (default_null dat)"
  have "log_timestamp (body (post_request this ?d)) = moment_format ''YYYY-MM-DDTHH:mm:ss[Z]'' t"
    using assms(1) by (simp add: post_request_def build_logData_def)
  with read_timestamp_format [OF assms(2)] moment_format_pattern [of t]
    log_outbound [of this rt lvl msg dat w]
  show ?thesis
    by (intro exI [of _ "post_request this ?d"]) simp
qed

theorem log_timestamp_is_zone_wall_clock_witness:
  "calendar (zone_clock ''Asia/Kathmandu'') \<and>
   (\<exists>req. outbound (snd (log (this0\<lparr>this_timezone := ''Asia/Kathmandu''\<rparr>)
                            (runtime_with (HttpReply 200 JNull)) ''info'' JNull JNull w0)) = [req] \<and>
          log_timestamp (body req) = ''2024-03-09T12:50:00Z'')"
proof -
  have c: "calendar (zone_clock ''Asia/Kathmandu'')"
    by (simp add: calendar_def zone_clock_def clock0_def)
  have z: "moment_tz (runtime_with (HttpReply 200 JNull))
             (this_timezone (this0\<lparr>this_timezone := ''Asia/Kathmandu''\<rparr>))
           = zone_clock ''Asia/Kathmandu''"
    by (simp add: runtime_with_def)
  have "zeroFill 2024 4 = ''2024''" and "zeroFill 3 2 = ''03''" and "zeroFill 9 2 = ''09''"
    and "zeroFill 12 2 = ''12''" and "zeroFill 50 2 = ''50''" and "zeroFill 0 2 = ''00''"
    by code_simp+
  with log_timestamp_is_zone_wall_clock
         [OF z c, of "''info''" JNull JNull w0]
  show ?thesis
    using c by (auto simp: zone_clock_def clock0_def w0_def)
qed

section \<open>Properties of the caller metadata\<close>

lemma lit_matches_iff:
  "lit p k s \<noteq> None \<longleftrightarrow> (\<exists>rest. s = p @ rest \<and> k rest \<noteq> None)"
proof (induction p arbitrary: s)
  case Nil
  then show ?case by simp
next
  case (Cons a p)
  then show ?case by (cases s) auto
qed

lemma lazy_dots_matches_iff:
  "lazy_dots k acc s \<noteq> None \<longleftrightarrow>
     (\<exists>g rest. s = g @ rest \<and> g \<noteq> [] \<and> (\<forall>c\<in>set g. \<not> line_terminator c) \<and>
                k (acc @ g) rest \<noteq> None)"
proof (induction s arbitrary: acc)
  case Nil
  then show ?case by simp
next
  case (Cons c cs)
  show ?case
  proof (cases "line_terminator c")
    case True
    then show ?thesis
      by (auto simp: Cons_eq_append_conv)
  next
    case False
    have "lazy_dots k acc (c # cs) \<noteq> None \<longleftrightarrow>
            k (acc @ [c]) cs \<noteq> None \<or> lazy_dots k (acc @ [c]) cs \<noteq> None"
      using False by (auto split: option.splits)
    also have "\<dots> \<longleftrightarrow> k (acc @ [c]) cs \<noteq> None \<or>
        (\<exists>g rest. cs = g @ rest \<and> g \<noteq> [] \<and> (\<forall>c\<in>set g. \<not> line_terminator c) \<and>
                   k (acc @ [c] @ g) rest \<noteq> None)"
      using Cons.IH [of "acc @ [c]"] by simp
    also have "\<dots> \<longleftrightarrow> (\<exists>g rest. c # cs = g @ rest \<and> g \<noteq> [] \<and>
        (\<forall>c\<in>set g. \<not> line_terminator c) \<and> k (acc @ g) rest \<noteq> None)"
      (is "?L \<longleftrightarrow> ?R")
    proof
      assume ?L
      then show ?R
      proof
        assume "k (acc @ [c]) cs \<noteq> None"
        with False show ?R
          by (intro exI [of _ "[c]"] exI [of _ cs]) simp
      next
        assume "\<exists>g rest. cs = g @ rest \<and> g \<noteq> [] \<and> (\<forall>c\<in>set g. \<not> line_terminator c) \<and>
                   k (acc @ [c] @ g) rest \<noteq> None"
        then obtain g rest where "cs = g @ rest" "\<forall>c\<in>set g. \<not> line_terminator c"
          "k (acc @ [c] @ g) rest \<noteq> None"
          by blast
        with False show ?R
          by (intro exI [of _ "c # g"] exI [of _ rest]) simp
      qed
    next
      assume ?R
      then obtain g rest where g: "c # cs = g @ rest" "g \<noteq> []"
        "\<forall>c\<in>set g. \<not> line_terminator c" "k (acc @ g) rest \<noteq> None"
        by blast
      then obtain g' where g': "g = c # g'" "cs = g' @ rest"
        by (cases g) auto
      show ?L
      proof (cases "g' = []")
        case True
        with g g' show ?thesis by simp
      next
        case False
        with g g' have "cs = g' @ rest \<and> g' \<noteq> [] \<and> (\<forall>c\<in>set g'. \<not> line_terminator c) \<and>
            k (acc @ [c] @ g') rest \<noteq> None"
          by simp
        then show ?thesis by blast
      qed
    qed
    finally show ?thesis .
  qed
qed


lemma greedy_digits_matches_iff:
  "greedy_digits k acc s \<noteq> None \<longleftrightarrow>
     (\<exists>g rest. s = g @ rest \<and> g \<noteq> [] \<and> (\<forall>c\<in>set g. digit c) \<and> k (acc @ g) rest \<noteq> None)"
proof (induction s arbitrary: acc)
  case Nil
  then show ?case by simp
next
  case (Cons c cs)
  show ?case
  proof (cases "digit c")
    case False
    then show ?thesis
      by (auto simp: Cons_eq_append_conv)
  next
    case True
    have "greedy_digits k acc (c # cs) \<noteq> None \<longleftrightarrow>
            greedy_digits k (acc @ [c]) cs \<noteq> None \<or> k (acc @ [c]) cs \<noteq> None"
      using True by (auto split: option.splits)
    also have "\<dots> \<longleftrightarrow> k (acc @ [c]) cs \<noteq> None \<or>
        (\<exists>g rest. cs = g @ rest \<and> g \<noteq> [] \<and> (\<forall>c\<in>set g. digit c) \<and>
                   k (acc @ [c] @ g) rest \<noteq> None)"
      using Cons.IH [of "acc @ [c]"] by auto
    also have "\<dots> \<longleftrightarrow> (\<exists>g rest. c # cs = g @ rest \<and> g \<noteq> [] \<and>
        (\<forall>c\<in>set g. digit c) \<and> k (acc @ g) rest \<noteq> None)"
      (is "?L \<longleftrightarrow> ?R")
    proof
      assume ?L
      then show ?R
      proof
        assume "k (acc @ [c]) cs \<noteq> None"
        with True show ?R
          by (intro exI [of _ "[c]"] exI [of _ cs]) simp
      next
        assume "\<exists>g rest. cs = g @ rest \<and> g \<noteq> [] \<and> (\<forall>c\<in>set g. digit c) \<and>
                   k (acc @ [c] @ g) rest \<noteq> None"
        then obtain g rest where "cs = g @ rest" "\<forall>c\<in>set g. digit c"
          "k (acc @ [c] @ g) rest \<noteq> None"
          by blast
        with True show ?R
          by (intro exI [of _ "c # g"] exI [of _ rest]) simp
      qed
    next
      assume ?R
      then obtain g rest where g: "c # cs = g @ rest" "g \<noteq> []"
        "\<forall>c\<in>set g. digit c" "k (acc @ g) rest \<noteq> None"
        by blast
      then obtain g' where g': "g = c # g'" "cs = g' @ rest"
        by (cases g) auto
      show ?L
      proof (cases "g' = []")
        case True
        with g g' show ?thesis by simp
      next
        case False
        with g g' have "cs = g' @ rest \<and> g' \<noteq> [] \<and> (\<forall>c\<in>set g'. digit c) \<and>
            k (acc @ [c] @ g') rest \<noteq> None"
          by simp
        then show ?thesis by blast
      qed
    qed
    finally show ?thesis .
  qed
qed

lemma match_matches_iff:
  "match s \<noteq> None \<longleftrightarrow> (\<exists>pre rest. s = pre @ rest \<and> match_here rest \<noteq> None)"
proof (induction s)
  case Nil
  then show ?case by simp
next
  case (Cons c cs)
  have "match (c # cs) \<noteq> None \<longleftrightarrow> match_here (c # cs) \<noteq> None \<or> match cs \<noteq> None"
    by (auto split: option.splits)
  also have "\<dots> \<longleftrightarrow> match_here (c # cs) \<noteq> None \<or>
      (\<exists>pre rest. cs = pre @ rest \<and> match_here rest \<noteq> None)"
    using Cons.IH by simp
  also have "\<dots> \<longleftrightarrow> (\<exists>pre rest. c # cs = pre @ rest \<and> match_here rest \<noteq> None)"
    (is "?L \<longleftrightarrow> ?R")
  proof
    assume ?L
    then show ?R
    proof
      assume "match_here (c # cs) \<noteq> None"
      then show ?R
        by (intro exI [of _ "[]"] exI [of _ "c # cs"]) simp
    next
      assume "\<exists>pre rest. cs = pre @ rest \<and> match_here rest \<noteq> None"
      then obtain pre rest where "cs = pre @ rest" "match_here rest \<noteq> None"
        by blast
      then show ?R
        by (intro exI [of _ "c # pre"] exI [of _ rest]) simp
    qed
  next
    assume ?R
    then obtain pre rest where p: "c # cs = pre @ rest" "match_here rest \<noteq> None"
      by blast
    show ?L
    proof (cases pre)
      case Nil
      with p show ?thesis by simp
    next
      case (Cons a pre')
      with p have "cs = pre' @ rest"
        by simp
      with p(2) show ?thesis by blast
    qed
  qed
  finally show ?case .
qed


lemma match_here_matches_iff:
  "match_here s \<noteq> None \<longleftrightarrow>
     (\<exists>g1 g2 d1 d2 post.
        s = ''at '' @ g1 @ '' ('' @ g2 @ '':'' @ d1 @ '':'' @ d2 @ '')'' @ post \<and>
        g1 \<noteq> [] \<and> (\<forall>c\<in>set g1. \<not> line_terminator c) \<and>
        g2 \<noteq> [] \<and> (\<forall>c\<in>set g2. \<not> line_terminator c) \<and>
        d1 \<noteq> [] \<and> (\<forall>c\<in>set d1. digit c) \<and>
        d2 \<noteq> [] \<and> (\<forall>c\<in>set d2. digit c))"
  (is "?L \<longleftrightarrow> ?R")
proof
  assume ?L
  then obtain g1 g2 d1 d2 post where
    "s = ''at '' @ g1 @ '' ('' @ g2 @ '':'' @ d1 @ '':'' @ d2 @ '')'' @ post"
    "g1 \<noteq> []" "\<forall>c\<in>set g1. \<not> line_terminator c"
    "g2 \<noteq> []" "\<forall>c\<in>set g2. \<not> line_terminator c"
    "d1 \<noteq> []" "\<forall>c\<in>set d1. digit c" "d2 \<noteq> []" "\<forall>c\<in>set d2. digit c"
    unfolding match_here_def lit_matches_iff lazy_dots_matches_iff greedy_digits_matches_iff
    by auto
  then show ?R
    by blast
next
  assume ?R
  then obtain g1 g2 d1 d2 post where
    s: "s = ''at '' @ g1 @ '' ('' @ g2 @ '':'' @ d1 @ '':'' @ d2 @ '')'' @ post" and
    g: "g1 \<noteq> []" "\<forall>c\<in>set g1. \<not> line_terminator c"
    "g2 \<noteq> []" "\<forall>c\<in>set g2. \<not> line_terminator c"
    "d1 \<noteq> []" "\<forall>c\<in>set d1. digit c" "d2 \<noteq> []" "\<forall>c\<in>set d2. digit c"
    by blast
  show ?L
    unfolding match_here_def lit_matches_iff lazy_dots_matches_iff greedy_digits_matches_iff s
    apply (rule exI [of _ "g1 @ '' ('' @ g2 @ '':'' @ d1 @ '':'' @ d2 @ '')'' @ post"])
    apply (rule conjI, simp)
    apply (rule exI [of _ g1], rule exI [of _ "'' ('' @ g2 @ '':'' @ d1 @ '':'' @ d2 @ '')'' @ post"])
    apply (intro conjI, simp, rule g, rule g)
    apply (rule exI [of _ "g2 @ '':'' @ d1 @ '':'' @ d2 @ '')'' @ post"])
    apply (rule conjI, simp)
    apply (rule exI [of _ g2], rule exI [of _ "'':'' @ d1 @ '':'' @ d2 @ '')'' @ post"])
    apply (intro conjI, simp, rule g, rule g)
    apply (rule exI [of _ "d1 @ '':'' @ d2 @ '')'' @ post"])
    apply (rule conjI, simp)
    apply (rule exI [of _ d1], rule exI [of _ "'':'' @ d2 @ '')'' @ post"])
    apply (intro conjI, simp, rule g, rule g)
    apply (rule exI [of _ "d2 @ '')'' @ post"])
    apply (rule conjI, simp)
    apply (rule exI [of _ d2], rule exI [of _ "'')'' @ post"])
    apply (intro conjI, simp, rule g, rule g)
    apply (rule exI [of _ post])
    apply simp
    done
qed


lemma match_fails_iff:
  "match s = None \<longleftrightarrow>
     \<not> (\<exists>pre g1 g2 d1 d2 post.
          s = pre @ ''at '' @ g1 @ '' ('' @ g2 @ '':'' @ d1 @ '':'' @ d2 @ '')'' @ post \<and>
          g1 \<noteq> [] \<and> (\<forall>c\<in>set g1. \<not> line_terminator c) \<and>
          g2 \<noteq> [] \<and> (\<forall>c\<in>set g2. \<not> line_terminator c) \<and>
          d1 \<noteq> [] \<and> (\<forall>c\<in>set d1. digit c) \<and>
          d2 \<noteq> [] \<and> (\<forall>c\<in>set d2. digit c))"
proof -
  have "match s \<noteq> None \<longleftrightarrow>
     (\<exists>pre g1 g2 d1 d2 post.
          s = pre @ ''at '' @ g1 @ '' ('' @ g2 @ '':'' @ d1 @ '':'' @ d2 @ '')'' @ post \<and>
          g1 \<noteq> [] \<and> (\<forall>c\<in>set g1. \<not> line_terminator c) \<and>
          g2 \<noteq> [] \<and> (\<forall>c\<in>set g2. \<not> line_terminator c) \<and>
          d1 \<noteq> [] \<and> (\<forall>c\<in>set d1. digit c) \<and>
          d2 \<noteq> [] \<and> (\<forall>c\<in>set d2. digit c))"
    unfolding match_matches_iff match_here_matches_iff by blast
  then show ?thesis
    by blast
qed

lemma match_here_empty: "match_here [] = None"
  by (simp add: match_here_def)

lemma callerLine_missing: "length (split_nl stk) \<le> 3 \<Longrightarrow> callerLine stk = []"
  by (simp add: callerLine_def)

lemma callerLine_present: "3 < length (split_nl stk) \<Longrightarrow> callerLine stk = split_nl stk ! 3"
  by (simp add: callerLine_def)

text \<open>
  On a stack that is a text, the request is sent with the class name, the method name
  and the line number that the extraction gave; when the text has no line of index 3,
  or the pattern is nowhere in that line, these are \<open>UnknownClass\<close> and 0.
\<close>

lemma sentinels_on_text:
  "(\<exists>req. outbound (snd (log this rt lvl msg dat w)) = outbound w @ [req] \<and>
          class_name (body req) = className (error_stack rt) \<and>
          method_name (body req) = className (error_stack rt) \<and>
          line_number (body req) = lineNumber (error_stack rt)) \<and>
   (length (split_nl (error_stack rt)) \<le> 3 \<or> match (split_nl (error_stack rt) ! 3) = None
      \<longrightarrow> className (error_stack rt) = ''UnknownClass'' \<and> lineNumber (error_stack rt) = Num 0)"
proof -
  let ?d = "build_logData this rt lvl (default_null msg) (default_null dat)"
  have "outbound (snd (log this rt lvl msg dat w)) = outbound w @ [post_request this ?d]"
    by (rule log_outbound)
  moreover have "class_name (body (post_request this ?d)) = className (error_stack rt)"
    and "method_name (body (post_request this ?d)) = className (error_stack rt)"
    and "line_number (body (post_request this ?d)) = lineNumber (error_stack rt)"
    by (simp_all add: post_request_def build_logData_def)
  ultimately have sent: "\<exists>req. outbound (snd (log this rt lvl msg dat w)) = outbound w @ [req] \<and>
          class_name (body req) = className (error_stack rt) \<and>
          method_name (body req) = className (error_stack rt) \<and>
          line_number (body req) = lineNumber (error_stack rt)"
    by blast
  have "match (callerLine (error_stack rt)) = None"
    if "length (split_nl (error_stack rt)) \<le> 3 \<or> match (split_nl (error_stack rt) ! 3) = None"
  proof (cases "length (split_nl (error_stack rt)) \<le> 3")
    case True
    then show ?thesis
      by (simp add: callerLine_missing match_here_empty)
  next
    case False
    with that show ?thesis
      by (simp add: callerLine_present)
  qed
  then have "className (error_stack rt) = ''UnknownClass'' \<and> lineNumber (error_stack rt) = Num 0"
    if "length (split_nl (error_stack rt)) \<le> 3 \<or> match (split_nl (error_stack rt) ! 3) = None"
    using that by (simp add: className_def lineNumber_def)
  with sent show ?thesis
    by blast
qed

lemma sentinels_on_samples:
  "className stack_short = ''UnknownClass'' \<and> lineNumber stack_short = Num 0 \<and>
   className stack_anonymous = ''UnknownClass'' \<and> lineNumber stack_anonymous = Num 0"
  by code_simp

text \<open>
  Up to \<open>2 ^ 53\<close> the line number is the integer that the digits write; beyond, it is
  the nearest double, and in the end \<open>Infinity\<close>.
\<close>

declare bit_length.simps [simp del]

lemma to_double_exact: "n < 9007199254740992 \<Longrightarrow> to_double n = Num n"
  by (simp add: to_double_def)

lemma caller_of_sample_stack:
  "className stack0 = ''handler'' \<and> lineNumber stack0 = Num 42"
proof -
  have "match (callerLine stack0) = Some (''handler'', ''/app/server.js'', ''42'')"
    by code_simp
  moreover have "decimal_value ''42'' = 42"
    by code_simp
  ultimately show ?thesis
    by (simp add: className_def lineNumber_def parseInt_def to_double_exact)
qed

lemma parseInt_rounds:
  "parseInt ''9007199254740993'' = Num 9007199254740992 \<and>
   parseInt ''9007199254740995'' = Num 9007199254740996"
proof -
  have bl: "bit_length 9007199254740993 = 54" "bit_length 9007199254740995 = 54"
    by (simp_all add: bit_length.simps)
  have dv: "decimal_value ''9007199254740993'' = 9007199254740993"
    "decimal_value ''9007199254740995'' = 9007199254740995"
    by (simp_all add: decimal_value_def digit_value_def)
  show ?thesis
    by (simp add: parseInt_def dv to_double_def bl Let_def)
qed

lemma bit_length_power: "bit_length (2 ^ k) = Suc k"
  by (induction k) (simp_all add: bit_length.simps)

lemma to_double_overflow: "to_double (2 ^ 1024) = PosInfinity"
proof -
  have a: "\<not> (2::nat) ^ 1024 < 9007199254740992"
  proof -
    have "(9007199254740992::nat) = 2 ^ 53" by simp
    moreover have "(2::nat) ^ 53 \<le> 2 ^ 1024" by (rule power_increasing) simp_all
    ultimately show ?thesis by linarith
  qed
  have b: "(2::nat) ^ 1024 div 2 ^ 972 = 2 ^ 52"
    by (simp add: power_diff [symmetric])
  have c: "(2::nat) ^ 1024 mod 2 ^ 972 = 0"
    by (simp add: le_imp_power_dvd)
  have d: "(2::nat) ^ 52 * 2 ^ 972 = 2 ^ 1024"
    by (simp add: power_add [symmetric])
  show ?thesis
    unfolding to_double_def Let_def bit_length_power using a
    by (simp only: if_False diff_Suc_Suc) (simp add: b c d del: power_numeral)
qed

lemma log_on_host_text:
  "log_on_host (JStr stack_text) this rt lvl msg dat w
     = log this (rt\<lparr>error_stack := stack_text\<rparr>) lvl msg dat w"
  by (simp add: log_on_host_def)

text \<open>
  C9. The claim asks that the extraction of the caller never throw, whatever the stack
  holds. It does throw: when a program has set \<open>Error.prepareStackTrace\<close> so that
  \<open>.stack\<close> is an array of call sites (or \<open>undefined\<close>), \<open>log\<close> is rejected with a
  \<open>TypeError\<close> and no request is sent; behind a severity method, which drops the
  promise, the \<open>TypeError\<close> is an unhandled rejection. The same call on the sample
  text is fulfilled and sends its request.
\<close>

theorem log_throws_when_stack_is_no_string:
  "log_on_host (JArr []) this0 (runtime_with (HttpReply 200 JNull)) ''info'' (JStr ''hello'')
     JUndefined w0 = (Rejected TypeError, w0) \<and>
   log_on_host JUndefined this0 (runtime_with (HttpReply 200 JNull)) ''info'' (JStr ''hello'')
     JUndefined w0 = (Rejected TypeError, w0) \<and>
   outbound w0 = [] \<and>
   call_and_drop (log_on_host (JArr []) this0 (runtime_with (HttpReply 200 JNull)) ''info''
                    (JStr ''hello'') JNull w0) = (JUndefined, w0\<lparr>unhandled := [TypeError]\<rparr>) \<and>
   fst (log_on_host (JStr stack0) this0 (runtime_with (HttpReply 200 JNull)) ''info''
          (JStr ''hello'') JUndefined w0) = Fulfilled JUndefined \<and>
   length (outbound (snd (log_on_host (JStr stack0) this0 (runtime_with (HttpReply 200 JNull))
                            ''info'' (JStr ''hello'') JUndefined w0))) = 1"
proof -
  let ?rt = "(runtime_with (HttpReply 200 JNull))\<lparr>error_stack := stack0\<rparr>"
  let ?d = "build_logData this0 ?rt ''info'' (default_null (JStr ''hello'')) (default_null JUndefined)"
  have "server ?rt (post_request this0 ?d) = HttpReply 200 JNull"
    by (simp add: runtime_with_def)
  then have "sendLogRequest this0 ?rt ?d w0
      = (Fulfilled JNull, w0\<lparr>outbound := outbound w0 @ [post_request this0 ?d]\<rparr>)"
    by (rule sendLogRequest_resolved) (simp add: validateStatus_def)
  then have "log this0 ?rt ''info'' (JStr ''hello'') JUndefined w0
      = (Fulfilled JUndefined, w0\<lparr>outbound := outbound w0 @ [post_request this0 ?d]\<rparr>)"
    by (rule log_fulfilled)
  then show ?thesis
    by (simp add: log_on_host_def call_and_drop_def w0_def)
qed

end
